theory Spec2Isabelle
  imports Main
begin

section \<open>Binary64 floating point, as the Python runtime computes it\<close>

text \<open>
  A Python \<open>float\<close> is an IEEE 754 binary64 value. \<open>Finite s m e\<close> stands for
  \<open>(-1)\<^sup>s * m * 2\<^sup>e\<close> in the canonical form of the format: \<open>0 \<le> m < 2\<^sup>5\<^sup>3\<close>,
  \<open>- 1074 \<le> e \<le> 971\<close>, and \<open>2\<^sup>5\<^sup>2 \<le> m\<close> unless \<open>e = - 1074\<close> (zero and the subnormal
  numbers). Each value has exactly one such form, so equality of two \<open>fl\<close> values is
  equality of the bit patterns (all NaNs are identified).
\<close>

datatype fl = Finite bool int int | Infinity bool | NaN

function bitlen :: "int \<Rightarrow> int" where
  "bitlen n = (if n \<le> 0 then 0 else 1 + bitlen (n div 2))"
  by pat_completeness auto
termination
  by (relation "measure nat") auto

declare bitlen.simps [simp del]

definition pow2 :: "int \<Rightarrow> int" where
  "pow2 k = 2 ^ nat k"

text \<open>The integer nearest to \<open>n / d\<close>, ties to the even one (\<open>0 \<le> n\<close>, \<open>0 < d\<close>).\<close>

definition round_half_even :: "int \<Rightarrow> int \<Rightarrow> int" where
  "round_half_even n d =
     (let q = n div d; r = n mod d
      in if 2 * r < d then q
         else if d < 2 * r then q + 1
         else if even q then q else q + 1)"

text \<open>
  The binary64 value nearest to \<open>(-1)\<^sup>s * n / d\<close> (\<open>0 \<le> n\<close>, \<open>0 < d\<close>), ties to even:
  \<open>e\<close> is the binary exponent of the quotient, \<open>q\<close> the exponent of the last
  place (53 significant bits, fewer below \<open>2\<^sup>-\<^sup>1\<^sup>0\<^sup>2\<^sup>2\<close>), \<open>m\<close> the rounded significand.
  A result beyond the largest finite value is the infinity.
\<close>

definition round_ratio :: "bool \<Rightarrow> int \<Rightarrow> int \<Rightarrow> fl" where
  "round_ratio s n d =
     (if n = 0 then Finite s 0 (- 1074)
      else
        let k = bitlen n - bitlen d;
            e = (if d * pow2 k \<le> n * pow2 (- k) then k else k - 1);
            q = max e (- 1022) - 52;
            m = round_half_even (n * pow2 (- q)) (d * pow2 q)
        in if m = 2 ^ 53
           then (if 971 < q + 1 then Infinity s else Finite s (2 ^ 52) (q + 1))
           else (if 971 < q then Infinity s else Finite s m q))"

definition fzero :: fl where
  "fzero = Finite False 0 (- 1074)"

definition fone :: fl where
  "fone = Finite False (2 ^ 52) (- 52)"

definition fhalf :: fl where
  "fhalf = Finite False (2 ^ 52) (- 53)"


definition is_zero :: "fl \<Rightarrow> bool" where
  "is_zero x = (case x of Finite s m e \<Rightarrow> m = 0 | _ \<Rightarrow> False)"

definition is_positive :: "fl \<Rightarrow> bool" where
  "is_positive x =
     (case x of Finite s m e \<Rightarrow> \<not> s \<and> 0 < m | Infinity s \<Rightarrow> \<not> s | NaN \<Rightarrow> False)"

fun fmul :: "fl \<Rightarrow> fl \<Rightarrow> fl" where
  "fmul NaN y = NaN"
| "fmul x NaN = NaN"
| "fmul (Infinity s) (Infinity t) = Infinity (s \<noteq> t)"
| "fmul (Infinity s) (Finite t n f) = (if n = 0 then NaN else Infinity (s \<noteq> t))"
| "fmul (Finite s m e) (Infinity t) = (if m = 0 then NaN else Infinity (s \<noteq> t))"
| "fmul (Finite s m e) (Finite t n f) =
     round_ratio (s \<noteq> t) (m * n * pow2 (e + f)) (pow2 (- (e + f)))"

fun fdiv :: "fl \<Rightarrow> fl \<Rightarrow> fl" where
  "fdiv NaN y = NaN"
| "fdiv x NaN = NaN"
| "fdiv (Infinity s) (Infinity t) = NaN"
| "fdiv (Infinity s) (Finite t n f) = Infinity (s \<noteq> t)"
| "fdiv (Finite s m e) (Infinity t) = Finite (s \<noteq> t) 0 (- 1074)"
| "fdiv (Finite s m e) (Finite t n f) =
     (if n = 0 then (if m = 0 then NaN else Infinity (s \<noteq> t))
      else round_ratio (s \<noteq> t) (m * pow2 (e - f)) (n * pow2 (f - e)))"

fun fadd :: "fl \<Rightarrow> fl \<Rightarrow> fl" where
  "fadd NaN y = NaN"
| "fadd x NaN = NaN"
| "fadd (Infinity s) (Infinity t) = (if s = t then Infinity s else NaN)"
| "fadd (Infinity s) (Finite t n f) = Infinity s"
| "fadd (Finite s m e) (Infinity t) = Infinity t"
| "fadd (Finite s m e) (Finite t n f) =
     (let c = min e f;
          x = (if s then - m else m) * pow2 (e - c) + (if t then - n else n) * pow2 (f - c)
      in if x = 0 then Finite (s \<and> t) 0 (- 1074)
         else round_ratio (x < 0) (\<bar>x\<bar> * pow2 c) (pow2 (- c)))"

text \<open>\<open>fl_is x n d\<close>: the float \<open>x\<close> is finite and its value is the fraction \<open>n / d\<close>.\<close>

definition fl_is :: "fl \<Rightarrow> int \<Rightarrow> int \<Rightarrow> bool" where
  "fl_is x n d =
     (case x of
        Finite s m e \<Rightarrow> (if s then - m else m) * pow2 e * d = n * pow2 (- e)
      | _ \<Rightarrow> False)"

section \<open>Python values, exceptions and the operators the program applies\<close>

datatype exn =
    IndexError | TypeError | ValueError | OverflowError | ZeroDivisionError
  | ContractLogicError | ConnectionError | FileNotFoundError
  | GenericException exn

text \<open>
  \<open>GenericException e\<close> is a plain \<open>Exception\<close> whose message embeds the text of \<open>e\<close>.
  The values are those a decoded contract response is made of, and floats: \<open>PSeq\<close> is a
  list or a tuple (the program never tells them apart).
\<close>

datatype pyval = PInt int | PBool bool | PFloat fl | PStr string | PSeq "pyval list"

text \<open>
  Two operations are left to the platform: parsing a string as a float (\<open>float(s)\<close>;
  \<open>None\<close> is \<open>ValueError\<close>) and the C library's \<open>pow(10.0, y)\<close>, which \<open>10 ** y\<close> calls
  for a negative or a float exponent and which is not correctly rounded everywhere. So is
  the interpreter's limit on the decimal digits of an integer turned into text: \<open>None\<close>
  is no limit (as before Python 3.11, or when the limit is set to 0), \<open>Some k\<close> is the
  limit \<open>640 + k\<close>, since the interpreter accepts no limit below 640; the default 4300 is
  \<open>Some 3660\<close>.
\<close>

record runtime =
  str_to_float :: "string \<Rightarrow> fl option"
  pow10_float :: "fl \<Rightarrow> exn + fl"
  str_digits_limit :: "nat option"

definition and_then :: "exn + 'a \<Rightarrow> ('a \<Rightarrow> exn + 'b) \<Rightarrow> exn + 'b" where
  "and_then m f = (case m of Inl e \<Rightarrow> Inl e | Inr x \<Rightarrow> f x)"

text \<open>\<open>v[i]\<close> for a literal index \<open>i \<ge> 0\<close>.\<close>

fun py_index :: "pyval \<Rightarrow> nat \<Rightarrow> exn + pyval" where
  "py_index (PSeq xs) i = (if i < length xs then Inr (xs ! i) else Inl IndexError)"
| "py_index (PStr s) i = (if i < length s then Inr (PStr [s ! i]) else Inl IndexError)"
| "py_index v i = Inl TypeError"

text \<open>\<open>len(v)\<close> followed by iteration over \<open>v\<close>.\<close>

fun py_iter :: "pyval \<Rightarrow> exn + pyval list" where
  "py_iter (PSeq xs) = Inr xs"
| "py_iter (PStr s) = Inr (map (\<lambda>c. PStr [c]) s)"
| "py_iter v = Inl TypeError"

fun py_truth :: "pyval \<Rightarrow> bool" where
  "py_truth (PInt i) = (i \<noteq> 0)"
| "py_truth (PBool b) = b"
| "py_truth (PFloat x) = (\<not> is_zero x)"
| "py_truth (PStr s) = (s \<noteq> [])"
| "py_truth (PSeq xs) = (xs \<noteq> [])"

datatype num = NInt int | NFloat fl

fun as_num :: "pyval \<Rightarrow> num option" where
  "as_num (PInt i) = Some (NInt i)"
| "as_num (PBool b) = Some (NInt (if b then 1 else 0))"
| "as_num (PFloat x) = Some (NFloat x)"
| "as_num v = None"

text \<open>The float nearest to an integer, and to the quotient of two (\<open>b \<noteq> 0\<close>).\<close>

definition nearest_int :: "int \<Rightarrow> fl" where
  "nearest_int i = round_ratio (i < 0) \<bar>i\<bar> 1"

definition nearest_quotient :: "int \<Rightarrow> int \<Rightarrow> fl" where
  "nearest_quotient a b = round_ratio ((a < 0) \<noteq> (b < 0)) \<bar>a\<bar> \<bar>b\<bar>"

text \<open>\<open>float(i)\<close> of an integer: the nearest float, \<open>OverflowError\<close> beyond the range.\<close>

definition float_of_int :: "int \<Rightarrow> exn + fl" where
  "float_of_int i =
     (case nearest_int i of Infinity s \<Rightarrow> Inl OverflowError | x \<Rightarrow> Inr x)"

text \<open>\<open>a / b\<close> of two integers: the correctly rounded quotient.\<close>

definition int_true_divide :: "int \<Rightarrow> int \<Rightarrow> exn + fl" where
  "int_true_divide a b =
     (if b = 0 then Inl ZeroDivisionError
      else case nearest_quotient a b of
             Infinity s \<Rightarrow> Inl OverflowError
           | x \<Rightarrow> Inr x)"

fun to_double :: "num \<Rightarrow> exn + fl" where
  "to_double (NInt i) = float_of_int i"
| "to_double (NFloat x) = Inr x"

definition float_div :: "num \<Rightarrow> num \<Rightarrow> exn + fl" where
  "float_div a b =
     and_then (to_double a) (\<lambda>x.
     and_then (to_double b) (\<lambda>y.
     if is_zero y then Inl ZeroDivisionError else Inr (fdiv x y)))"

fun num_truediv :: "num \<Rightarrow> num \<Rightarrow> exn + fl" where
  "num_truediv (NInt a) (NInt b) = int_true_divide a b"
| "num_truediv a b = float_div a b"

definition py_truediv :: "pyval \<Rightarrow> pyval \<Rightarrow> exn + fl" where
  "py_truediv a b =
     (case as_num a of
        None \<Rightarrow> Inl TypeError
      | Some x \<Rightarrow> (case as_num b of None \<Rightarrow> Inl TypeError | Some y \<Rightarrow> num_truediv x y))"

text \<open>\<open>x * v\<close> with a float on the left.\<close>

definition py_float_mul :: "fl \<Rightarrow> pyval \<Rightarrow> exn + fl" where
  "py_float_mul x v =
     (case as_num v of
        None \<Rightarrow> Inl TypeError
      | Some n \<Rightarrow> and_then (to_double n) (\<lambda>y. Inr (fmul x y)))"

text \<open>\<open>10 ** v\<close>: an integer for an exponent \<open>\<ge> 0\<close>, else the float power.\<close>

definition py_pow10 :: "runtime \<Rightarrow> pyval \<Rightarrow> exn + pyval" where
  "py_pow10 rt v =
     (case as_num v of
        None \<Rightarrow> Inl TypeError
      | Some (NInt n) \<Rightarrow>
          if 0 \<le> n then Inr (PInt (10 ^ nat n))
          else and_then (float_of_int n) (\<lambda>y.
               and_then (pow10_float rt y) (\<lambda>z. Inr (PFloat z)))
      | Some (NFloat y) \<Rightarrow> and_then (pow10_float rt y) (\<lambda>z. Inr (PFloat z)))"

text \<open>\<open>v > 0\<close> and \<open>v == 0\<close>.\<close>

definition py_gt_zero :: "pyval \<Rightarrow> exn + bool" where
  "py_gt_zero v =
     (case as_num v of
        None \<Rightarrow> Inl TypeError
      | Some (NInt n) \<Rightarrow> Inr (0 < n)
      | Some (NFloat x) \<Rightarrow> Inr (is_positive x))"

definition py_eq_zero :: "pyval \<Rightarrow> bool" where
  "py_eq_zero v =
     (case as_num v of
        None \<Rightarrow> False
      | Some (NInt n) \<Rightarrow> n = 0
      | Some (NFloat x) \<Rightarrow> is_zero x)"

text \<open>\<open>float(v)\<close>.\<close>

definition py_float :: "runtime \<Rightarrow> pyval \<Rightarrow> exn + fl" where
  "py_float rt v =
     (case v of
        PStr s \<Rightarrow> (case str_to_float rt s of None \<Rightarrow> Inl ValueError | Some x \<Rightarrow> Inr x)
      | PSeq xs \<Rightarrow> Inl TypeError
      | _ \<Rightarrow> (case as_num v of None \<Rightarrow> Inl TypeError | Some n \<Rightarrow> to_double n))"

text \<open>
  Whether \<open>{v}\<close> in an f-string formats: the text of an integer of more digits than the
  limit raises \<open>ValueError\<close>, also inside a list or a tuple; nothing else on these values
  raises.
\<close>

fun printable :: "runtime \<Rightarrow> pyval \<Rightarrow> bool" where
  "printable rt (PInt i) =
     (case str_digits_limit rt of None \<Rightarrow> True | Some k \<Rightarrow> \<bar>i\<bar> < 10 ^ (640 + k))"
| "printable rt (PSeq xs) = list_all (printable rt) xs"
| "printable rt v = True"

section \<open>The helpers and the fetcher\<close>

text \<open>\<open>connect_to_web3\<close>, given what \<open>is_connected()\<close> answers.\<close>

definition connect_to_web3 :: "bool \<Rightarrow> exn + unit" where
  "connect_to_web3 is_connected = (if \<not> is_connected then Inl ConnectionError else Inr ())"

text \<open>\<open>load_abi\<close>, given the state of the file at the path.\<close>

datatype abi_file = Absent | Unparsable | Parsed

fun load_abi :: "abi_file \<Rightarrow> exn + unit" where
  "load_abi Absent = Inl FileNotFoundError"
| "load_abi Unparsable = Inl ValueError"
| "load_abi Parsed = Inr ()"

text \<open>
  \<open>get_aave_reserves_data\<close>, given what building the contract and calling
  \<open>getReservesData\<close> does: it returns a decoded value or raises. The shape check and its
  \<open>ValueError\<close> are inside the \<open>try\<close>, so both handlers apply to it.
\<close>

datatype call_result = Returns pyval | Raises exn

definition check_shape :: "pyval \<Rightarrow> exn + pyval \<times> pyval" where
  "check_shape result =
     (case result of
        PSeq xs \<Rightarrow> if length xs \<noteq> 2 then Inl ValueError else Inr (xs ! 0, xs ! 1)
      | _ \<Rightarrow> Inl ValueError)"

definition get_aave_reserves_data :: "call_result \<Rightarrow> exn + pyval \<times> pyval" where
  "get_aave_reserves_data call =
     (case (case call of Raises e \<Rightarrow> Inl e | Returns result \<Rightarrow> check_shape result) of
        Inl ContractLogicError \<Rightarrow> Inl ContractLogicError
      | Inl e \<Rightarrow> Inl (GenericException e)
      | Inr p \<Rightarrow> Inr p)"

section \<open>The reducer\<close>

text \<open>
  The text the reducer prints is no part of what it returns; what is modelled of a
  \<open>print\<close> is whether formatting its arguments raises. Floats, strings, booleans and the
  messages of exceptions always format; the unit (line 88) and the symbol (lines 118 and
  129) format when they are \<open>printable\<close>. Integers are unbounded, as Python's are; running
  out of memory on a power of ten is not modelled.
\<close>

text \<open>Lines 81 to 84: the price of the reference currency in USD.\<close>

definition market_ref_currency_price_in_usd :: "runtime \<Rightarrow> pyval \<Rightarrow> pyval \<Rightarrow> exn + fl" where
  "market_ref_currency_price_in_usd rt raw price_decimals =
     and_then (py_gt_zero price_decimals) (\<lambda>scaled.
     if scaled then and_then (py_pow10 rt price_decimals) (\<lambda>d. py_truediv raw d)
     else py_float rt raw)"

text \<open>Line 115 and lines 121 to 122.\<close>

definition normalized_total_supplied_asset :: "runtime \<Rightarrow> pyval \<Rightarrow> pyval \<Rightarrow> exn + fl" where
  "normalized_total_supplied_asset rt total_supplied_asset_raw asset_decimals =
     and_then (py_pow10 rt asset_decimals) (\<lambda>d. py_truediv total_supplied_asset_raw d)"

definition value_in_market_ref_currency :: "fl \<Rightarrow> pyval \<Rightarrow> pyval \<Rightarrow> exn + fl" where
  "value_in_market_ref_currency normalized price unit =
     and_then (py_float_mul normalized price) (\<lambda>x. py_truediv (PFloat x) unit)"

text \<open>
  Lines 94 to 127, the body of the \<open>try\<close> without its two \<open>print\<close>s: it reaches one of
  the two \<open>continue\<close>s, or line 127 with the value to add, or raises before that.
\<close>

datatype body_result = Ineligible | ZeroUnit | Adds fl

definition reserve_body :: "runtime \<Rightarrow> pyval \<Rightarrow> fl \<Rightarrow> pyval \<Rightarrow> exn + body_result" where
  "reserve_body rt unit price_in_usd reserve =
     and_then (py_index reserve 2) (\<lambda>symbol.
     and_then (py_index reserve 3) (\<lambda>asset_decimals.
     and_then (py_index reserve 10) (\<lambda>is_active.
     and_then (py_index reserve 11) (\<lambda>is_frozen.
     and_then (py_index reserve 20) (\<lambda>available_liquidity_raw.
     and_then (py_index reserve 21) (\<lambda>total_scaled_variable_debt_raw.
     and_then (py_index reserve 22) (\<lambda>price_in_market_ref_currency.
     if \<not> py_truth is_active \<or> py_truth is_frozen then Inr Ineligible
     else
       and_then (normalized_total_supplied_asset rt available_liquidity_raw asset_decimals)
         (\<lambda>normalized.
       if py_eq_zero unit then Inr ZeroUnit
       else
         and_then (value_in_market_ref_currency normalized price_in_market_ref_currency unit)
           (\<lambda>value_in_ref. Inr (Adds (fmul value_in_ref price_in_usd)))))))))))"

text \<open>
  The \<open>try\<close> statement for one reserve, with its \<open>print\<close>s and its handlers. The
  \<open>print\<close> of line 118 comes before the second \<open>continue\<close>, the one of line 129 after the
  addition of line 127: when it raises, the value is already in the total. Both handlers
  log the exception and go on.
\<close>

datatype try_result = Continues | Added fl | Caught exn | AddedThenCaught fl exn

definition reserve_try :: "runtime \<Rightarrow> pyval \<Rightarrow> fl \<Rightarrow> pyval \<Rightarrow> try_result" where
  "reserve_try rt unit price_in_usd reserve =
     (case reserve_body rt unit price_in_usd reserve of
        Inl e \<Rightarrow> Caught e
      | Inr reached \<Rightarrow>
          (case py_index reserve 2 of
             Inl e \<Rightarrow> Caught e
           | Inr symbol \<Rightarrow>
               (case reached of
                  Ineligible \<Rightarrow> Continues
                | ZeroUnit \<Rightarrow> if printable rt symbol then Continues else Caught ValueError
                | Adds value_in_usd \<Rightarrow>
                    if printable rt symbol then Added value_in_usd
                    else AddedThenCaught value_in_usd ValueError)))"

text \<open>The \<open>for\<close> loop: the total after one reserve, and after all of them.\<close>

fun accumulate :: "fl \<Rightarrow> try_result \<Rightarrow> fl" where
  "accumulate total_tvl_in_usd (Added value_in_usd) = fadd total_tvl_in_usd value_in_usd"
| "accumulate total_tvl_in_usd (AddedThenCaught value_in_usd e) =
     fadd total_tvl_in_usd value_in_usd"
| "accumulate total_tvl_in_usd r = total_tvl_in_usd"

fun tvl_loop :: "runtime \<Rightarrow> pyval \<Rightarrow> fl \<Rightarrow> pyval list \<Rightarrow> fl \<Rightarrow> fl" where
  "tvl_loop rt unit price_in_usd [] total_tvl_in_usd = total_tvl_in_usd"
| "tvl_loop rt unit price_in_usd (reserve # rest) total_tvl_in_usd =
     tvl_loop rt unit price_in_usd rest
       (accumulate total_tvl_in_usd (reserve_try rt unit price_in_usd reserve))"

text \<open>Lines 77 to 84: the unit and the price, decoded before the loop.\<close>

definition decode_base_currency :: "runtime \<Rightarrow> pyval \<Rightarrow> exn + pyval \<times> fl" where
  "decode_base_currency rt base_currency_info =
     and_then (py_index base_currency_info 0) (\<lambda>market_ref_currency_unit.
     and_then (py_index base_currency_info 1) (\<lambda>raw.
     and_then (py_index base_currency_info 3) (\<lambda>price_decimals.
     and_then (market_ref_currency_price_in_usd rt raw price_decimals) (\<lambda>price_in_usd.
     Inr (market_ref_currency_unit, price_in_usd)))))"

text \<open>
  The reducer: the decoding, the \<open>print\<close>s of lines 86 to 89 (the unit, then the length of
  the reserves), the loop.
\<close>

definition calculate_total_tvl :: "runtime \<Rightarrow> pyval \<Rightarrow> pyval \<Rightarrow> exn + fl" where
  "calculate_total_tvl rt reserves_data base_currency_info =
     and_then (decode_base_currency rt base_currency_info) (\<lambda>(unit, price_in_usd).
     if \<not> printable rt unit then Inl ValueError
     else
       and_then (py_iter reserves_data) (\<lambda>reserves.
       Inr (tvl_loop rt unit price_in_usd reserves fzero)))"

section \<open>The script\<close>

text \<open>
  What \<open>main\<close> prints last: the total, or one of its two kinds of error line. Reading the
  block number after connecting is taken to succeed.
\<close>

datatype report = Tvl fl | Error exn | UnknownCriticalError exn

definition handled :: "exn \<Rightarrow> bool" where
  "handled e = (e = ConnectionError \<or> e = FileNotFoundError \<or> e = ValueError \<or> e = ContractLogicError)"

definition main :: "runtime \<Rightarrow> bool \<Rightarrow> abi_file \<Rightarrow> call_result \<Rightarrow> report" where
  "main rt is_connected file call =
     (case and_then (connect_to_web3 is_connected) (\<lambda>w3.
           and_then (load_abi file) (\<lambda>uipool_abi.
           and_then (get_aave_reserves_data call) (\<lambda>(reserves_data, base_currency_info).
           calculate_total_tvl rt reserves_data base_currency_info))) of
        Inr tvl_result \<Rightarrow> Tvl tvl_result
      | Inl e \<Rightarrow> if handled e then Error e else UnknownCriticalError e)"

section \<open>Well-formed inputs and the specification's formulas\<close>

text \<open>
  An integer is in range when its magnitude is below \<open>2\<^sup>1\<^sup>0\<^sup>2\<^sup>3\<close>: every 256-bit value of the
  contract is, and \<open>float\<close> does not overflow on it.
\<close>

definition in_float_range :: "int \<Rightarrow> bool" where
  "in_float_range i = (\<bar>i\<bar> < 2 ^ 1023)"

fun is_int :: "pyval \<Rightarrow> bool" where
  "is_int (PInt i) = True"
| "is_int v = False"

fun is_str :: "pyval \<Rightarrow> bool" where
  "is_str (PStr s) = True"
| "is_str v = False"

fun is_bool :: "pyval \<Rightarrow> bool" where
  "is_bool (PBool b) = True"
| "is_bool v = False"

fun ranged_int :: "pyval \<Rightarrow> bool" where
  "ranged_int (PInt i) = in_float_range i"
| "ranged_int v = False"

fun natural_int :: "pyval \<Rightarrow> bool" where
  "natural_int (PInt i) = (0 \<le> i)"
| "natural_int v = False"

fun int_of :: "pyval \<Rightarrow> int" where
  "int_of (PInt i) = i"
| "int_of v = 0"

text \<open>
  A well-formed base currency info has its four positions, an integer unit and an integer
  price in range, and an integer number of price decimals. A well-formed reserve has the
  23 positions the reducer reads, with a string symbol, integer decimals \<open>\<ge> 0\<close>, boolean
  flags, and liquidity and price integers in range. Its position 21, the debt, is not
  constrained.
\<close>

definition wf_base :: "pyval \<Rightarrow> bool" where
  "wf_base b =
     (case b of
        PSeq xs \<Rightarrow> 4 \<le> length xs \<and> ranged_int (xs ! 0) \<and> ranged_int (xs ! 1) \<and> is_int (xs ! 3)
      | _ \<Rightarrow> False)"

definition wf_reserve :: "pyval \<Rightarrow> bool" where
  "wf_reserve r =
     (case r of
        PSeq xs \<Rightarrow>
          23 \<le> length xs \<and> is_str (xs ! 2) \<and> natural_int (xs ! 3) \<and> is_bool (xs ! 10)
          \<and> is_bool (xs ! 11) \<and> ranged_int (xs ! 20) \<and> ranged_int (xs ! 22)
      | _ \<Rightarrow> False)"

definition eligible :: "pyval \<Rightarrow> bool" where
  "eligible r = (case r of PSeq xs \<Rightarrow> py_truth (xs ! 10) \<and> \<not> py_truth (xs ! 11) | _ \<Rightarrow> False)"

text \<open>
  The specification's formulas, in its words: the price is the raw price divided by
  \<open>10\<^sup>d\<close> when the decimals \<open>d\<close> are positive and the raw price as a float otherwise; a
  reserve is worth
  \<^verbatim>\<open>(availableLiquidity / 10^assetDecimals) * priceInMarketReferenceCurrency / marketReferenceCurrencyUnit * priceInUsd\<close>,
  each operation rounded to the nearest float.
\<close>

definition spec_price_in_usd :: "int \<Rightarrow> int \<Rightarrow> fl" where
  "spec_price_in_usd raw_price price_decimals =
     (if 0 < price_decimals then nearest_quotient raw_price (10 ^ nat price_decimals)
      else nearest_int raw_price)"

definition spec_value_in_usd :: "int \<Rightarrow> fl \<Rightarrow> pyval \<Rightarrow> fl" where
  "spec_value_in_usd unit price_in_usd r =
     (case r of
        PSeq xs \<Rightarrow>
          fmul (fdiv (fmul (nearest_quotient (int_of (xs ! 20)) (10 ^ nat (int_of (xs ! 3))))
                           (nearest_int (int_of (xs ! 22))))
                     (nearest_int unit))
               price_in_usd
      | _ \<Rightarrow> NaN)"

definition spec_total :: "int \<Rightarrow> fl \<Rightarrow> pyval list \<Rightarrow> fl" where
  "spec_total unit price_in_usd rs =
     foldl fadd fzero (map (spec_value_in_usd unit price_in_usd) (filter eligible rs))"

text \<open>What the claim on totality calls well-formed: four positions with numeric content.\<close>

definition numeric_base :: "pyval \<Rightarrow> bool" where
  "numeric_base b =
     (case b of
        PSeq xs \<Rightarrow> 4 \<le> length xs \<and> as_num (xs ! 0) \<noteq> None \<and> as_num (xs ! 1) \<noteq> None
                   \<and> as_num (xs ! 3) \<noteq> None
      | _ \<Rightarrow> False)"

section \<open>Concrete inputs\<close>

text \<open>
  A runtime with the default limit of 4300 digits, for inputs that reach neither of the
  other two platform operations; the 23 positions of a
  reserve record with the seven the reducer reads filled in, and the four positions of a
  base currency info.
\<close>

definition bare_runtime :: runtime where
  "bare_runtime =
     \<lparr>str_to_float = (\<lambda>s. None), pow10_float = (\<lambda>y. Inl OverflowError),
      str_digits_limit = Some 3660\<rparr>"

definition reserve_fields :: "int \<Rightarrow> bool \<Rightarrow> bool \<Rightarrow> int \<Rightarrow> int \<Rightarrow> int \<Rightarrow> pyval list" where
  "reserve_fields asset_decimals is_active is_frozen available_liquidity debt price =
     [PStr ''0xA0'', PStr ''USD Coin'', PStr ''USDC'', PInt asset_decimals,
      PInt 0, PInt 0, PInt 0, PInt 0, PBool True, PBool True,
      PBool is_active, PBool is_frozen, PInt 0, PInt 0, PInt 0, PInt 0,
      PStr ''0xA1'', PStr ''0xA2'', PStr ''0xA3'', PStr ''0xA4'',
      PInt available_liquidity, PInt debt, PInt price]"

definition base_fields :: "int \<Rightarrow> int \<Rightarrow> int \<Rightarrow> pyval list" where
  "base_fields unit raw_price price_decimals =
     [PInt unit, PInt raw_price, PInt 0, PInt price_decimals]"


text \<open>
  A record whose symbol is an integer of 4301 digits, one more than the default limit
  lets through.
\<close>

definition long_symbol :: int where
  "long_symbol = 10 ^ (640 + 3660)"

definition unprintable_fields :: "pyval list" where
  "unprintable_fields = (reserve_fields 6 True False 1000000 0 50000)[2 := PInt long_symbol]"

text \<open>An integer price that no float holds.\<close>

definition oversized_price :: int where
  "oversized_price = 10 ^ 400"

section \<open>Facts about the float operations\<close>

lemma and_then_Inl [simp]: "and_then (Inl e) f = Inl e"
  by (simp add: and_then_def)

lemma and_then_Inr [simp]: "and_then (Inr x) f = f x"
  by (simp add: and_then_def)

lemma bitlen_nonneg: "0 \<le> bitlen n"
  by (induction n rule: bitlen.induct) (subst bitlen.simps, simp)

lemma bitlen_pos: "0 < n \<Longrightarrow> 1 \<le> bitlen n"
  using bitlen_nonneg [of "n div 2"] by (subst bitlen.simps) simp

lemma bitlen_le: "n < 2 ^ k \<Longrightarrow> bitlen n \<le> int k"
proof (induction k arbitrary: n)
  case 0
  then show ?case by (subst bitlen.simps) simp
next
  case (Suc k)
  show ?case
  proof (cases "n \<le> 0")
    case True
    then show ?thesis by (subst bitlen.simps) simp
  next
    case False
    from Suc.prems have "n div 2 < 2 ^ k" by simp
    then have "bitlen (n div 2) \<le> int k" by (rule Suc.IH)
    with False show ?thesis by (subst bitlen.simps) simp
  qed
qed

lemma bitlen_lower: "0 < n \<Longrightarrow> 2 ^ nat (bitlen n - 1) \<le> n"
proof (induction n rule: bitlen.induct)
  case (1 n)
  show ?case
  proof (cases "n div 2 = 0")
    case True
    with "1.prems" have "bitlen n = 1"
      by (subst bitlen.simps, subst bitlen.simps) simp
    with "1.prems" show ?thesis by simp
  next
    case False
    with "1.prems" have pos: "0 < n div 2" by simp
    have ih: "2 ^ nat (bitlen (n div 2) - 1) \<le> n div 2"
      using "1.IH" "1.prems" pos by simp
    have b: "bitlen n = 1 + bitlen (n div 2)"
      using "1.prems" by (subst bitlen.simps) simp
    have "1 \<le> bitlen (n div 2)" using pos by (rule bitlen_pos)
    then have "nat (bitlen n - 1) = Suc (nat (bitlen (n div 2) - 1))"
      using b by simp
    then have "(2::int) ^ nat (bitlen n - 1) = 2 * 2 ^ nat (bitlen (n div 2) - 1)"
      by simp
    also have "\<dots> \<le> 2 * (n div 2)" using ih by simp
    also have "\<dots> \<le> n" by simp
    finally show ?thesis .
  qed
qed

lemma round_half_even_ge: "0 < d \<Longrightarrow> n div d \<le> round_half_even n d"
  by (simp add: round_half_even_def Let_def)

lemma round_half_even_one: "round_half_even n 1 = n"
  by (simp add: round_half_even_def Let_def)

lemma round_ratio_finite:
  assumes "0 \<le> n" "n < 2 ^ 1023" "0 < d"
  shows "\<exists>m e. round_ratio s n d = Finite s m e"
proof (cases "n = 0")
  case True
  then show ?thesis by (simp add: round_ratio_def)
next
  case False
  have "bitlen n \<le> 1023" using bitlen_le [OF assms(2)] by simp
  moreover have "1 \<le> bitlen d" using assms(3) by (rule bitlen_pos)
  ultimately have k: "bitlen n - bitlen d \<le> 1022" by simp
  define k where "k = bitlen n - bitlen d"
  define e where "e = (if d * pow2 k \<le> n * pow2 (- k) then k else k - 1)"
  define q where "q = max e (- 1022) - 52"
  have "e \<le> 1022" using k by (simp add: e_def k_def)
  then have q: "q \<le> 970" by (simp add: q_def)
  show ?thesis
    using False q unfolding round_ratio_def Let_def k_def [symmetric] e_def [symmetric] q_def [symmetric]
    by auto
qed

lemma float_of_int_ok: "in_float_range i \<Longrightarrow> float_of_int i = Inr (nearest_int i)"
  using round_ratio_finite [of "\<bar>i\<bar>" 1 "i < 0"]
  by (auto simp: float_of_int_def nearest_int_def in_float_range_def)

lemma int_true_divide_ok:
  "in_float_range a \<Longrightarrow> b \<noteq> 0 \<Longrightarrow> int_true_divide a b = Inr (nearest_quotient a b)"
  using round_ratio_finite [of "\<bar>a\<bar>" "\<bar>b\<bar>" "(a < 0) \<noteq> (b < 0)"]
  by (auto simp: int_true_divide_def nearest_quotient_def in_float_range_def)

lemma round_ratio_int_nonzero:
  assumes "0 < n"
  shows "\<not> is_zero (round_ratio s n 1)"
proof -
  have b1: "bitlen 1 = 1" by (subst bitlen.simps, subst bitlen.simps) simp
  define k where "k = bitlen n - 1"
  have k0: "0 \<le> k" using bitlen_pos [OF assms] by (simp add: k_def)
  have low: "2 ^ nat k \<le> n" using bitlen_lower [OF assms] by (simp add: k_def)
  have e: "(if 1 * pow2 k \<le> n * pow2 (- k) then k else k - 1) = k"
    using low k0 by (simp add: pow2_def)
  define q where "q = max k (- 1022) - 52"
  have qk: "q = k - 52" using k0 by (simp add: q_def)
  define m where "m = round_half_even (n * pow2 (- q)) (1 * pow2 q)"
  have "0 < m"
  proof (cases "q \<le> 0")
    case True
    then have "m = n * pow2 (- q)" by (simp add: m_def pow2_def round_half_even_one)
    then show ?thesis using assms by (simp add: pow2_def)
  next
    case False
    then have qpos: "0 < q" by simp
    have "nat k = nat q + 52" using qk qpos by simp
    then have "(2::int) ^ nat k = 2 ^ 52 * 2 ^ nat q" by (simp add: power_add)
    then have "2 ^ 52 * 2 ^ nat q \<le> n" using low by simp
    then have "2 ^ 52 \<le> n div 2 ^ nat q"
      by (metis mult.commute zdiv_mono1 zero_less_numeral zero_less_power nonzero_mult_div_cancel_right
                power_not_zero zero_neq_numeral)
    moreover have "n div 2 ^ nat q \<le> m"
      using qpos round_half_even_ge [of "2 ^ nat q" n] by (simp add: m_def pow2_def)
    ultimately show ?thesis by simp
  qed
  then show ?thesis
    using assms unfolding round_ratio_def Let_def b1 k_def [symmetric] e q_def [symmetric] m_def [symmetric]
    by (auto simp: is_zero_def)
qed

lemma nearest_int_nonzero: "i \<noteq> 0 \<Longrightarrow> \<not> is_zero (nearest_int i)"
  using round_ratio_int_nonzero [of "\<bar>i\<bar>" "i < 0"] by (simp add: nearest_int_def)

lemma bitlen_zero: "bitlen 0 = 0"
  by (subst bitlen.simps) simp

lemma bitlen_one: "bitlen 1 = 1"
  by (subst bitlen.simps) (simp add: bitlen_zero)

lemma bitlen_Bit0: "bitlen (numeral (Num.Bit0 n)) = 1 + bitlen (numeral n)"
  by (subst bitlen.simps) simp

lemma bitlen_Bit1: "bitlen (numeral (Num.Bit1 n)) = 1 + bitlen (numeral n)"
  by (subst bitlen.simps) simp

lemmas round_eval = round_ratio_def round_half_even_def pow2_def Let_def
  bitlen_zero bitlen_one bitlen_Bit0 bitlen_Bit1

lemma bitlen_upper: "0 \<le> n \<Longrightarrow> n < 2 ^ nat (bitlen n)"
proof (induction n rule: bitlen.induct)
  case (1 n)
  show ?case
  proof (cases "n = 0")
    case True
    then show ?thesis by simp
  next
    case False
    with "1.prems" have pos: "0 < n" by simp
    then have ih: "n div 2 < 2 ^ nat (bitlen (n div 2))"
      using "1.IH" by simp
    have b: "bitlen n = 1 + bitlen (n div 2)"
      using pos by (subst bitlen.simps) simp
    have "nat (bitlen n) = Suc (nat (bitlen (n div 2)))"
      using b bitlen_nonneg [of "n div 2"] by simp
    then have "(2::int) ^ nat (bitlen n) = 2 * 2 ^ nat (bitlen (n div 2))"
      by simp
    moreover have "n < 2 * (n div 2 + 1)" by presburger
    moreover have "2 * (n div 2 + 1) \<le> 2 * 2 ^ nat (bitlen (n div 2))"
      using ih by simp
    ultimately show ?thesis by simp
  qed
qed

lemma round_ratio_int_overflow:
  assumes "2 ^ 1024 \<le> n"
  shows "round_ratio s n 1 = Infinity s"
proof -
  have pos: "0 < n" using assms by (smt (verit) zero_less_power)
  have "n < 2 ^ nat (bitlen n)" using pos by (simp add: bitlen_upper)
  with assms have "(2::int) ^ 1024 < 2 ^ nat (bitlen n)" by simp
  then have "1024 < nat (bitlen n)"
    by (rule power_less_imp_less_exp [rotated]) simp
  then have big: "1024 \<le> bitlen n - 1" by simp
  define k where "k = bitlen n - 1"
  have low: "2 ^ nat k \<le> n" using bitlen_lower [OF pos] by (simp add: k_def)
  have k0: "0 \<le> k" using big by (simp add: k_def)
  have e: "(if 1 * pow2 k \<le> n * pow2 (- k) then k else k - 1) = k"
    using low k0 by (simp add: pow2_def)
  have q: "971 < max k (- 1022) - 52" using big by (simp add: k_def)
  show ?thesis
    using pos q unfolding round_ratio_def Let_def bitlen_one k_def [symmetric] e
    by auto
qed

lemma float_of_int_overflow: "2 ^ 1024 \<le> \<bar>i\<bar> \<Longrightarrow> float_of_int i = Inl OverflowError"
  by (simp add: float_of_int_def nearest_int_def round_ratio_int_overflow)

lemma one_million_normalized: "nearest_quotient 1000000 1000000 = fone"
  by (simp add: nearest_quotient_def fone_def round_eval)

lemma nearest_50000: "nearest_int 50000 = Finite False 6871947673600000 (- 37)"
  by (simp add: nearest_int_def round_eval)

lemma nearest_100000: "nearest_int 100000 = Finite False 6871947673600000 (- 36)"
  by (simp add: nearest_int_def round_eval)

lemma nearest_2: "nearest_int 2 = Finite False (2 ^ 52) (- 51)"
  by (simp add: nearest_int_def round_eval)

lemma fmul_one_50000:
  "fmul fone (Finite False 6871947673600000 (- 37)) = Finite False 6871947673600000 (- 37)"
  apply (simp add: fone_def pow2_def)
  apply (simp add: round_eval)
  done

lemma fdiv_50000_100000:
  "fdiv (Finite False 6871947673600000 (- 37)) (Finite False 6871947673600000 (- 36)) = fhalf"
  apply (simp add: fhalf_def pow2_def)
  apply (simp add: round_eval)
  done

lemma fmul_half_two: "fmul fhalf (Finite False (2 ^ 52) (- 51)) = fone"
  apply (simp add: fhalf_def fone_def pow2_def)
  apply (simp add: round_eval)
  done

lemma fadd_zero_one: "fadd fzero fone = fone"
  apply (simp add: fzero_def fone_def pow2_def Let_def)
  apply (simp add: round_eval)
  done


lemma price_one: "spec_price_in_usd 100000000 8 = fone"
  by (simp add: spec_price_in_usd_def nearest_quotient_def fone_def round_eval)

section \<open>Facts about the reducer\<close>

lemma reserve_body_symbol:
  assumes "reserve_body rt u p r = Inr reached"
  obtains symbol where "py_index r 2 = Inr symbol"
proof (cases "py_index r 2")
  case (Inl e)
  then have "reserve_body rt u p r = Inl e" by (simp add: reserve_body_def)
  with assms show ?thesis by simp
next
  case (Inr symbol)
  then show ?thesis by (rule that)
qed

lemma accumulate_try:
  "accumulate t (reserve_try rt u p r)
     = (case reserve_body rt u p r of Inr (Adds v) \<Rightarrow> fadd t v | _ \<Rightarrow> t)"
proof (cases "reserve_body rt u p r")
  case (Inl e)
  then show ?thesis by (simp add: reserve_try_def)
next
  case (Inr reached)
  then obtain symbol where "py_index r 2 = Inr symbol" by (rule reserve_body_symbol)
  with Inr show ?thesis by (cases reached) (simp_all add: reserve_try_def)
qed


lemma printable_ranged: "in_float_range i \<Longrightarrow> printable rt (PInt i)"
proof (cases "str_digits_limit rt")
  case None
  then show ?thesis by simp
next
  case (Some k)
  assume "in_float_range i"
  then have "\<bar>i\<bar> < 2 ^ 1023" by (simp add: in_float_range_def)
  also have "(2::int) ^ 1023 \<le> 10 ^ 640" by simp
  also have "(10::int) ^ 640 \<le> 10 ^ (640 + k)" by (rule power_increasing) simp_all
  finally show ?thesis using Some by simp
qed

lemma printable_str: "printable rt (PStr s)"
  by simp

declare printable.simps [simp del]

lemma tvl_loop_append:
  "tvl_loop rt u p (xs @ ys) t = tvl_loop rt u p ys (tvl_loop rt u p xs t)"
  by (induction xs arbitrary: t) simp_all


lemma reserve_body_ineligible:
  "23 \<le> length xs \<Longrightarrow> \<not> py_truth (xs ! 10) \<or> py_truth (xs ! 11) \<Longrightarrow>
   reserve_body rt u p (PSeq xs) = Inr Ineligible"
  by (simp add: reserve_body_def)

lemma reserve_body_debt:
  "reserve_body rt u p (PSeq (xs[21 := v])) = reserve_body rt u p (PSeq xs)"
  by (simp add: reserve_body_def)



lemma py_pow10_natural: "0 \<le> d \<Longrightarrow> py_pow10 rt (PInt d) = Inr (PInt (10 ^ nat d))"
  by (simp add: py_pow10_def)

lemma py_truediv_ints:
  "in_float_range a \<Longrightarrow> b \<noteq> 0 \<Longrightarrow> py_truediv (PInt a) (PInt b) = Inr (nearest_quotient a b)"
  by (simp add: py_truediv_def int_true_divide_ok)

lemma py_float_mul_int:
  "in_float_range i \<Longrightarrow> py_float_mul x (PInt i) = Inr (fmul x (nearest_int i))"
  by (simp add: py_float_mul_def float_of_int_ok)

lemma py_truediv_float_int:
  "in_float_range u \<Longrightarrow> u \<noteq> 0 \<Longrightarrow>
   py_truediv (PFloat x) (PInt u) = Inr (fdiv x (nearest_int u))"
  by (simp add: py_truediv_def float_div_def float_of_int_ok nearest_int_nonzero)

lemma normalized_wf:
  "in_float_range a \<Longrightarrow> 0 \<le> d \<Longrightarrow>
   normalized_total_supplied_asset rt (PInt a) (PInt d) = Inr (nearest_quotient a (10 ^ nat d))"
  by (simp add: normalized_total_supplied_asset_def py_pow10_natural py_truediv_ints)

lemma value_in_ref_wf:
  "in_float_range price \<Longrightarrow> in_float_range u \<Longrightarrow> u \<noteq> 0 \<Longrightarrow>
   value_in_market_ref_currency x (PInt price) (PInt u)
     = Inr (fdiv (fmul x (nearest_int price)) (nearest_int u))"
  by (simp add: value_in_market_ref_currency_def py_float_mul_int py_truediv_float_int)

lemma wf_reserveE:
  assumes "wf_reserve r"
  obtains xs d act fro a price where
    "r = PSeq xs" "23 \<le> length xs" "xs ! 3 = PInt d" "0 \<le> d" "xs ! 10 = PBool act"
    "xs ! 11 = PBool fro" "xs ! 20 = PInt a" "in_float_range a" "xs ! 22 = PInt price"
    "in_float_range price"
proof -
  from assms obtain xs where r: "r = PSeq xs" and len: "23 \<le> length xs"
    and n3: "natural_int (xs ! 3)" and b10: "is_bool (xs ! 10)" and b11: "is_bool (xs ! 11)"
    and r20: "ranged_int (xs ! 20)" and r22: "ranged_int (xs ! 22)"
    by (auto simp: wf_reserve_def split: pyval.splits)
  from n3 obtain d where "xs ! 3 = PInt d" "0 \<le> d" by (cases "xs ! 3") auto
  moreover from b10 obtain act where "xs ! 10 = PBool act" by (cases "xs ! 10") auto
  moreover from b11 obtain fro where "xs ! 11 = PBool fro" by (cases "xs ! 11") auto
  moreover from r20 obtain a where "xs ! 20 = PInt a" "in_float_range a" by (cases "xs ! 20") auto
  moreover from r22 obtain price where "xs ! 22 = PInt price" "in_float_range price"
    by (cases "xs ! 22") auto
  ultimately show ?thesis using r len that by blast
qed

lemma reserve_body_wf:
  assumes "wf_reserve r" "in_float_range u" "u \<noteq> 0"
  shows "reserve_body rt (PInt u) p r =
           (if eligible r then Inr (Adds (spec_value_in_usd u p r)) else Inr Ineligible)"
proof -
  from assms(1) obtain xs d act fro a price where f:
    "r = PSeq xs" "23 \<le> length xs" "xs ! 3 = PInt d" "0 \<le> d" "xs ! 10 = PBool act"
    "xs ! 11 = PBool fro" "xs ! 20 = PInt a" "in_float_range a" "xs ! 22 = PInt price"
    "in_float_range price"
    by (rule wf_reserveE)
  then show ?thesis
    using assms(2,3)
    by (simp add: reserve_body_def eligible_def spec_value_in_usd_def normalized_wf
                  value_in_ref_wf py_eq_zero_def)
qed


lemma tvl_loop_wf:
  assumes "list_all wf_reserve rs" "in_float_range u" "u \<noteq> 0"
  shows "tvl_loop rt (PInt u) p rs t
           = foldl fadd t (map (spec_value_in_usd u p) (filter eligible rs))"
  using assms(1)
proof (induction rs arbitrary: t)
  case Nil
  show ?case by simp
next
  case (Cons r rs)
  then have "wf_reserve r" and rest: "list_all wf_reserve rs" by simp_all
  then have "reserve_body rt (PInt u) p r =
           (if eligible r then Inr (Adds (spec_value_in_usd u p r)) else Inr Ineligible)"
    using assms(2,3) by (simp add: reserve_body_wf)
  then show ?case using Cons.IH [OF rest] by (simp add: accumulate_try)
qed

lemma price_wf:
  "in_float_range raw \<Longrightarrow>
   market_ref_currency_price_in_usd rt (PInt raw) (PInt pd) = Inr (spec_price_in_usd raw pd)"
  by (simp add: market_ref_currency_price_in_usd_def py_gt_zero_def py_pow10_natural
                py_truediv_ints py_float_def float_of_int_ok spec_price_in_usd_def)

lemma wf_baseE:
  assumes "wf_base b"
  obtains bs u raw pd where
    "b = PSeq bs" "4 \<le> length bs" "bs ! 0 = PInt u" "bs ! 1 = PInt raw" "in_float_range raw"
    "bs ! 3 = PInt pd"
proof -
  from assms obtain bs where b: "b = PSeq bs" and len: "4 \<le> length bs"
    and i0: "ranged_int (bs ! 0)" and r1: "ranged_int (bs ! 1)" and i3: "is_int (bs ! 3)"
    by (auto simp: wf_base_def split: pyval.splits)
  from i0 obtain u where "bs ! 0 = PInt u" by (cases "bs ! 0") auto
  moreover from r1 obtain raw where "bs ! 1 = PInt raw" "in_float_range raw"
    by (cases "bs ! 1") auto
  moreover from i3 obtain pd where "bs ! 3 = PInt pd" by (cases "bs ! 3") auto
  ultimately show ?thesis using b len that by blast
qed

lemma decode_wf:
  assumes "4 \<le> length bs" "bs ! 1 = PInt raw" "in_float_range raw" "bs ! 3 = PInt pd"
  shows "decode_base_currency rt (PSeq bs) = Inr (bs ! 0, spec_price_in_usd raw pd)"
  using assms by (auto simp: decode_base_currency_def price_wf)

lemma decode_short:
  "length bs < 4 \<Longrightarrow> decode_base_currency rt (PSeq bs) = Inl IndexError"
  by (simp add: decode_base_currency_def)

lemma calculate_wf:
  assumes "4 \<le> length bs" "bs ! 1 = PInt raw" "in_float_range raw" "bs ! 3 = PInt pd"
    and "printable rt (bs ! 0)"
  shows "calculate_total_tvl rt (PSeq rs) (PSeq bs)
           = Inr (tvl_loop rt (bs ! 0) (spec_price_in_usd raw pd) rs fzero)"
  using decode_wf [OF assms(1-4), of rt] assms(5) by (simp add: calculate_total_tvl_def)

lemma wf_base_unit_printable: "wf_base (PSeq bs) \<Longrightarrow> printable rt (bs ! 0)"
proof -
  assume "wf_base (PSeq bs)"
  then have "ranged_int (bs ! 0)" by (simp add: wf_base_def)
  then show ?thesis by (cases "bs ! 0") (simp_all add: printable_ranged)
qed

lemma calculate_wf_base:
  assumes "wf_base b"
  shows "\<exists>u p. decode_base_currency rt b = Inr (u, p) \<and> printable rt u"
proof -
  from assms obtain bs u raw pd where f:
    "b = PSeq bs" "4 \<le> length bs" "bs ! 0 = PInt u" "bs ! 1 = PInt raw" "in_float_range raw"
    "bs ! 3 = PInt pd"
    by (rule wf_baseE)
  moreover from assms f(1) have "printable rt (bs ! 0)" by (simp add: wf_base_unit_printable)
  ultimately show ?thesis using decode_wf [of bs raw pd rt] by simp
qed

lemma calculate_cases:
  "calculate_total_tvl rt (PSeq rs) b =
     (case decode_base_currency rt b of
        Inl e \<Rightarrow> Inl e
      | Inr (u, p) \<Rightarrow>
          if printable rt u then Inr (tvl_loop rt u p rs fzero) else Inl ValueError)"
  by (simp add: calculate_total_tvl_def and_then_def split: sum.splits prod.splits)

lemma tvl_loop_remove:
  assumes "\<And>v. reserve_body rt u p r \<noteq> Inr (Adds v)"
  shows "tvl_loop rt u p (before @ r # after) t = tvl_loop rt u p (before @ after) t"
proof -
  have "accumulate s (reserve_try rt u p r) = s" for s
    using assms by (auto simp: accumulate_try split: sum.splits body_result.splits)
  then show ?thesis by (simp add: tvl_loop_append)
qed

lemma calculate_remove:
  assumes "\<And>u p v. reserve_body rt u p r \<noteq> Inr (Adds v)"
  shows "calculate_total_tvl rt (PSeq (before @ r # after)) b
           = calculate_total_tvl rt (PSeq (before @ after)) b"
  using assms by (simp add: calculate_cases tvl_loop_remove split: sum.splits prod.splits)

lemma tvl_loop_update:
  assumes "i < length rs" "reserve_body rt u p r' = reserve_body rt u p (rs ! i)"
  shows "tvl_loop rt u p (rs[i := r']) t = tvl_loop rt u p rs t"
  using assms
proof (induction rs arbitrary: i t)
  case Nil
  then show ?case by simp
next
  case (Cons r rs)
  then show ?case by (cases i) (simp_all add: accumulate_try)
qed

lemma calculate_update_debt:
  assumes "i < length rs" "rs ! i = PSeq xs"
  shows "calculate_total_tvl rt (PSeq (rs[i := PSeq (xs[21 := v])])) b
           = calculate_total_tvl rt (PSeq rs) b"
  using assms
  by (simp add: calculate_cases tvl_loop_update reserve_body_debt split: sum.splits prod.splits)

lemma reserve_fields_wf:
  "0 \<le> d \<Longrightarrow> in_float_range a \<Longrightarrow> in_float_range price \<Longrightarrow>
   wf_reserve (PSeq (reserve_fields d act fro a debt price))"
  by (simp add: wf_reserve_def reserve_fields_def)

lemma reserve_fields_eligible:
  "eligible (PSeq (reserve_fields d act fro a debt price)) = (act \<and> \<not> fro)"
  by (simp add: eligible_def reserve_fields_def)

lemma base_fields_wf:
  "in_float_range u \<Longrightarrow> in_float_range raw \<Longrightarrow> wf_base (PSeq (base_fields u raw pd))"
  by (simp add: wf_base_def base_fields_def)

lemma example_value:
  "fmul (fdiv (fmul (nearest_quotient 1000000 1000000) (nearest_int 50000))
              (nearest_int 100000)) (nearest_int 2) = fone"
  by (simp only: one_million_normalized nearest_50000 nearest_100000 nearest_2
        fmul_one_50000 fdiv_50000_100000 fmul_half_two)

lemma example_spec_value:
  "spec_value_in_usd 100000 (nearest_int 2) (PSeq (reserve_fields 6 act fro 1000000 debt 50000))
     = fone"
  using example_value
  by (simp add: spec_value_in_usd_def reserve_fields_def del: fmul.simps fdiv.simps)

lemma fl_is_one: "fl_is fone 1 1"
  by (simp add: fl_is_def fone_def pow2_def)

lemma fl_is_half: "fl_is fhalf 1 2"
  by (simp add: fl_is_def fhalf_def pow2_def)

lemma fl_is_zero: "fl_is fzero 0 1"
  by (simp add: fl_is_def fzero_def pow2_def)

lemma ranges: "in_float_range 1000000" "in_float_range 50000" "in_float_range 100000"
  "in_float_range 2" "in_float_range 100000000" "in_float_range 0"
  by (simp_all add: in_float_range_def)

lemma example_spec_total:
  "spec_total 100000 (nearest_int 2) [PSeq (reserve_fields 6 True False 1000000 debt 50000)]
     = fone"
  by (simp add: spec_total_def reserve_fields_eligible example_spec_value fadd_zero_one)

lemma calculate_short_base:
  "length bs < 4 \<Longrightarrow> calculate_total_tvl rt reserves (PSeq bs) = Inl IndexError"
  by (simp add: calculate_total_tvl_def decode_short)

lemma oversized_price_overflows: "float_of_int oversized_price = Inl OverflowError"
proof -
  have "(2::int) ^ 1024 \<le> \<bar>oversized_price\<bar>" by (simp add: oversized_price_def)
  then show ?thesis by (rule float_of_int_overflow)
qed

lemma fetch_two_elements:
  "get_aave_reserves_data (Returns (PSeq [reserves, base])) = Inr (reserves, base)"
  by (simp add: get_aave_reserves_data_def check_shape_def)

lemma fetch_other_shape:
  assumes "\<And>reserves base. result \<noteq> PSeq [reserves, base]"
  shows "get_aave_reserves_data (Returns result) = Inl (GenericException ValueError)"
proof -
  have "check_shape result = Inl ValueError"
  proof (cases result)
    case (PSeq xs)
    have "length xs \<noteq> 2"
    proof
      assume "length xs = 2"
      then obtain x y where "xs = [x, y]"
        by (metis (no_types) One_nat_def Suc_1 length_0_conv length_Suc_conv)
      with PSeq assms show False by simp
    qed
    with PSeq show ?thesis by (simp add: check_shape_def)
  qed (simp_all add: check_shape_def)
  then show ?thesis by (simp add: get_aave_reserves_data_def)
qed

lemma reserve_body_example:
  assumes "23 \<le> length xs" "xs ! 3 = PInt 6" "py_truth (xs ! 10)" "\<not> py_truth (xs ! 11)"
    "xs ! 20 = PInt 1000000" "xs ! 22 = PInt 50000"
  shows "reserve_body rt (PInt 100000) (nearest_int 2) (PSeq xs) = Inr (Adds fone)"
proof -
  have n: "normalized_total_supplied_asset rt (PInt 1000000) (PInt 6) = Inr fone"
    by (simp add: normalized_wf one_million_normalized ranges)
  have "value_in_market_ref_currency fone (PInt 50000) (PInt 100000)
          = Inr (fdiv (fmul fone (nearest_int 50000)) (nearest_int 100000))"
    by (simp add: value_in_ref_wf ranges del: fmul.simps fdiv.simps)
  also have "\<dots> = Inr fhalf"
    by (simp only: nearest_50000 nearest_100000 fmul_one_50000 fdiv_50000_100000)
  finally have v: "value_in_market_ref_currency fone (PInt 50000) (PInt 100000) = Inr fhalf" .
  have "fmul fhalf (nearest_int 2) = fone"
    by (simp only: nearest_2 fmul_half_two)
  moreover have "\<not> py_eq_zero (PInt 100000)" by (simp add: py_eq_zero_def)
  ultimately show ?thesis
    using assms n v by (simp add: reserve_body_def del: fmul.simps fdiv.simps)
qed

section \<open>The claims\<close>

text \<open>
  \<^bold>\<open>C1\<close>. On a well-formed input (a base currency info with its four positions, an
  integer unit that is not zero, unit and price in range, integer price decimals;
  well-formed reserve records) the total is the sum, in input order, over the eligible
  records of
  \<^verbatim>\<open>(availableLiquidity / 10^assetDecimals) * priceInMarketReferenceCurrency / marketReferenceCurrencyUnit * priceInUsd\<close>;
  the body of the loop adds exactly this value for each eligible record, whatever the
  price in USD; and replacing position 21, the total scaled variable debt, of any record
  by any value leaves the total as it was (this last part for every input).
\<close>

theorem total_from_available_liquidity_only:
  assumes "4 \<le> length bs" "bs ! 0 = PInt unit" "in_float_range unit" "unit \<noteq> 0"
    "bs ! 1 = PInt raw_price" "in_float_range raw_price" "bs ! 3 = PInt price_decimals"
    "list_all wf_reserve rs"
  shows "calculate_total_tvl rt (PSeq rs) (PSeq bs)
           = Inr (spec_total unit (spec_price_in_usd raw_price price_decimals) rs)
         \<and> (\<forall>r \<in> set rs. eligible r \<longrightarrow>
               reserve_body rt (PInt unit) p r = Inr (Adds (spec_value_in_usd unit p r)))
         \<and> (\<forall>i xs v. i < length rs \<and> rs ! i = PSeq xs \<longrightarrow>
               calculate_total_tvl rt (PSeq (rs[i := PSeq (xs[21 := v])])) (PSeq bs)
                 = calculate_total_tvl rt (PSeq rs) (PSeq bs))"
proof -
  have "printable rt (bs ! 0)" using assms(2,3) by (simp add: printable_ranged)
  then have "calculate_total_tvl rt (PSeq rs) (PSeq bs)
          = Inr (tvl_loop rt (PInt unit) (spec_price_in_usd raw_price price_decimals) rs fzero)"
    using calculate_wf [OF assms(1,5,6,7), of rt rs] assms(2) by simp
  then have total: "calculate_total_tvl rt (PSeq rs) (PSeq bs)
           = Inr (spec_total unit (spec_price_in_usd raw_price price_decimals) rs)"
    using tvl_loop_wf [OF assms(8,3,4)] by (simp add: spec_total_def)
  have each: "\<forall>r \<in> set rs. eligible r \<longrightarrow>
               reserve_body rt (PInt unit) p r = Inr (Adds (spec_value_in_usd unit p r))"
    using assms(8,3,4) by (simp add: list_all_iff reserve_body_wf)
  show ?thesis using total each by (simp add: calculate_update_debt)
qed

text \<open>The theorem at a concrete input.\<close>

theorem total_from_available_liquidity_only_witness:
  "calculate_total_tvl bare_runtime (PSeq [PSeq (reserve_fields 6 True False 1000000 7 50000)])
     (PSeq (base_fields 100000 2 0)) = Inr fone
   \<and> reserve_body bare_runtime (PInt 100000) (nearest_int 2)
       (PSeq (reserve_fields 6 True False 1000000 7 50000)) = Inr (Adds fone)
   \<and> calculate_total_tvl bare_runtime
       (PSeq ([PSeq (reserve_fields 6 True False 1000000 7 50000)]
                [0 := PSeq ((reserve_fields 6 True False 1000000 7 50000)[21 := PInt 123456789])]))
       (PSeq (base_fields 100000 2 0))
     = calculate_total_tvl bare_runtime
         (PSeq [PSeq (reserve_fields 6 True False 1000000 7 50000)]) (PSeq (base_fields 100000 2 0))"
proof -
  have b: "4 \<le> length (base_fields 100000 2 0)" "base_fields 100000 2 0 ! 0 = PInt 100000"
    "base_fields 100000 2 0 ! 1 = PInt 2" "base_fields 100000 2 0 ! 3 = PInt 0"
    by (simp_all add: base_fields_def)
  have nz: "(100000::int) \<noteq> 0" by simp
  have rs: "list_all wf_reserve [PSeq (reserve_fields 6 True False 1000000 7 50000)]"
    by (simp add: reserve_fields_wf ranges)
  have p: "spec_price_in_usd 2 0 = nearest_int 2" by (simp add: spec_price_in_usd_def)
  have el: "eligible (PSeq (reserve_fields 6 True False 1000000 7 50000))"
    by (simp add: reserve_fields_eligible)
  note t = total_from_available_liquidity_only
    [OF b(1,2) ranges(3) nz b(3) ranges(4) b(4) rs, of bare_runtime "nearest_int 2"]
  from t have t1: "calculate_total_tvl bare_runtime
      (PSeq [PSeq (reserve_fields 6 True False 1000000 7 50000)]) (PSeq (base_fields 100000 2 0))
      = Inr fone"
    by (simp add: p example_spec_total)
  from t el have t2: "reserve_body bare_runtime (PInt 100000) (nearest_int 2)
       (PSeq (reserve_fields 6 True False 1000000 7 50000)) = Inr (Adds fone)"
    by (simp add: example_spec_value del: fmul.simps fdiv.simps)
  from t have t3: "calculate_total_tvl bare_runtime
       (PSeq ([PSeq (reserve_fields 6 True False 1000000 7 50000)]
                [0 := PSeq ((reserve_fields 6 True False 1000000 7 50000)[21 := PInt 123456789])]))
       (PSeq (base_fields 100000 2 0))
     = calculate_total_tvl bare_runtime
         (PSeq [PSeq (reserve_fields 6 True False 1000000 7 50000)]) (PSeq (base_fields 100000 2 0))"
    by (metis length_Cons less_Suc0 list.size(3) nth_Cons_0)
  from t1 t2 t3 show ?thesis by blast
qed

text \<open>
  \<^bold>\<open>C2\<close>. For an active, unfrozen record with 6 asset decimals, available liquidity
  1000000 and price 50000, and a base currency info with unit 100000, raw price 2 and 0
  price decimals: the normalized supply is 1.0, the value in the reference currency is
  0.5, the value in USD is 1.0, and the total over this one record is 1.0.
\<close>

theorem single_record_arithmetic:
  assumes "23 \<le> length xs" "xs ! 3 = PInt 6" "xs ! 10 = PBool True" "xs ! 11 = PBool False"
    "xs ! 20 = PInt 1000000" "xs ! 22 = PInt 50000"
    and "4 \<le> length bs" "bs ! 0 = PInt 100000" "bs ! 1 = PInt 2" "bs ! 3 = PInt 0"
  shows "normalized_total_supplied_asset rt (xs ! 20) (xs ! 3) = Inr fone
         \<and> value_in_market_ref_currency fone (xs ! 22) (bs ! 0) = Inr fhalf
         \<and> decode_base_currency rt (PSeq bs) = Inr (PInt 100000, nearest_int 2)
         \<and> reserve_body rt (PInt 100000) (nearest_int 2) (PSeq xs) = Inr (Adds fone)
         \<and> calculate_total_tvl rt (PSeq [PSeq xs]) (PSeq bs) = Inr fone
         \<and> fl_is fhalf 1 2 \<and> fl_is fone 1 1"
proof -
  have r: "in_float_range 1000000" "in_float_range 50000" "in_float_range 100000"
    "in_float_range 2"
    by (simp_all add: in_float_range_def)
  have n: "normalized_total_supplied_asset rt (xs ! 20) (xs ! 3) = Inr fone"
    using assms(2,5) r(1) by (simp add: normalized_wf one_million_normalized)
  have "value_in_market_ref_currency fone (PInt 50000) (PInt 100000)
          = Inr (fdiv (fmul fone (nearest_int 50000)) (nearest_int 100000))"
    using r(2,3) by (simp add: value_in_ref_wf del: fmul.simps fdiv.simps)
  also have "\<dots> = Inr fhalf"
    by (simp only: nearest_50000 nearest_100000 fmul_one_50000 fdiv_50000_100000)
  finally have v: "value_in_market_ref_currency fone (xs ! 22) (bs ! 0) = Inr fhalf"
    using assms(6,8) by simp
  have d: "decode_base_currency rt (PSeq bs) = Inr (PInt 100000, nearest_int 2)"
    using decode_wf [OF assms(7,9) r(4) assms(10), of rt] assms(8)
    by (simp add: spec_price_in_usd_def)
  have py: "py_truth (PBool True)" "\<not> py_truth (PBool False)" "\<not> py_eq_zero (PInt 100000)"
    by (simp_all add: py_eq_zero_def)
  have "fmul fhalf (nearest_int 2) = fone"
    by (simp only: nearest_2 fmul_half_two)
  then have b: "reserve_body rt (PInt 100000) (nearest_int 2) (PSeq xs) = Inr (Adds fone)"
    using assms(1-6) n v py assms(8)
    by (simp add: reserve_body_def del: fmul.simps fdiv.simps)
  have "calculate_total_tvl rt (PSeq [PSeq xs]) (PSeq bs) = Inr fone"
    using d b r(3) by (simp add: calculate_cases accumulate_try fadd_zero_one printable_ranged)
  with n v d b show ?thesis by (simp add: fl_is_one fl_is_half)
qed

text \<open>The theorem at a concrete input.\<close>

theorem single_record_arithmetic_witness:
  "calculate_total_tvl bare_runtime (PSeq [PSeq (reserve_fields 6 True False 1000000 0 50000)])
     (PSeq (base_fields 100000 2 0)) = Inr fone
   \<and> reserve_body bare_runtime (PInt 100000) (nearest_int 2)
       (PSeq (reserve_fields 6 True False 1000000 0 50000)) = Inr (Adds fone)"
  using single_record_arithmetic
    [of "reserve_fields 6 True False 1000000 0 50000" "base_fields 100000 2 0" bare_runtime]
  by (simp add: reserve_fields_def base_fields_def)

text \<open>
  \<^bold>\<open>C3\<close>. The price normalization branches on \<open>price_decimals > 0\<close>: with 0 decimals the
  price is \<open>float(raw)\<close> itself, which for an integer is its conversion to a float, with
  no division; with 8 decimals and the raw price 100000000 it is 1.0; and for every
  integer number of decimals it is the quotient by the power of ten when the number is
  positive and \<open>float(raw)\<close> otherwise.
\<close>

theorem reference_price_branches:
  "market_ref_currency_price_in_usd rt raw (PInt 0) = py_float rt raw
   \<and> py_float rt (PInt r) = float_of_int r
   \<and> market_ref_currency_price_in_usd rt (PInt 100000000) (PInt 8) = Inr fone
   \<and> market_ref_currency_price_in_usd rt raw (PInt d)
       = (if 0 < d then py_truediv raw (PInt (10 ^ nat d)) else py_float rt raw)"
proof -
  have "in_float_range 100000000" by (simp add: in_float_range_def)
  then have "market_ref_currency_price_in_usd rt (PInt 100000000) (PInt 8) = Inr fone"
    by (simp add: price_wf price_one)
  then show ?thesis
    by (simp add: market_ref_currency_price_in_usd_def py_gt_zero_def py_pow10_def py_float_def)
qed

text \<open>The theorem at a concrete input.\<close>

theorem reference_price_branches_witness:
  "market_ref_currency_price_in_usd bare_runtime (PInt 2) (PInt 0) = Inr (nearest_int 2)
   \<and> market_ref_currency_price_in_usd bare_runtime (PInt 100000000) (PInt 8) = Inr fone"
  using reference_price_branches [of bare_runtime "PInt 2" 2 0]
  by (simp add: float_of_int_ok ranges)

text \<open>
  \<^bold>\<open>C4\<close>. A reserve record with its 23 positions whose \<open>isActive\<close> is false or whose
  \<open>isFrozen\<close> is true, whatever its other positions hold: the body of the loop ends in
  the first \<open>continue\<close> without raising, and the total of a list with the record is the
  total of the list without it.
\<close>

theorem ineligible_reserve_contributes_nothing:
  assumes "23 \<le> length xs" "\<not> py_truth (xs ! 10) \<or> py_truth (xs ! 11)"
  shows "reserve_body rt unit p (PSeq xs) = Inr Ineligible
         \<and> calculate_total_tvl rt (PSeq (before @ PSeq xs # after)) b
             = calculate_total_tvl rt (PSeq (before @ after)) b"
proof -
  have body: "reserve_body rt u q (PSeq xs) = Inr Ineligible" for u q
    using assms by (rule reserve_body_ineligible)
  then have "reserve_body rt u q (PSeq xs) \<noteq> Inr (Adds v)" for u q v by simp
  then show ?thesis using body by (simp add: calculate_remove)
qed

text \<open>The theorem at a concrete input.\<close>

theorem ineligible_reserve_contributes_nothing_witness:
  "reserve_body bare_runtime (PInt 100000) (nearest_int 2)
     (PSeq (reserve_fields 6 True True 1000000 0 50000)) = Inr Ineligible
   \<and> calculate_total_tvl bare_runtime
       (PSeq ([] @ PSeq (reserve_fields 6 True True 1000000 0 50000)
                 # [PSeq (reserve_fields 6 True False 1000000 0 50000)]))
       (PSeq (base_fields 100000 2 0))
     = calculate_total_tvl bare_runtime
         (PSeq ([] @ [PSeq (reserve_fields 6 True False 1000000 0 50000)]))
         (PSeq (base_fields 100000 2 0))"
proof -
  have len: "23 \<le> length (reserve_fields 6 True True 1000000 0 50000)"
    by (simp add: reserve_fields_def)
  have flags: "\<not> py_truth (reserve_fields 6 True True 1000000 0 50000 ! 10)
               \<or> py_truth (reserve_fields 6 True True 1000000 0 50000 ! 11)"
    by (simp add: reserve_fields_def)
  show ?thesis
    using ineligible_reserve_contributes_nothing [OF len flags] by blast
qed






text \<open>
  \<^bold>\<open>C7\<close>. A response of one element, or of three, makes the fetcher raise, but not a
  \<open>ValueError\<close>: the \<open>ValueError\<close> of the shape check is raised inside the \<open>try\<close>, and the
  handler for \<open>Exception\<close> replaces it by a plain \<open>Exception\<close>, which \<open>main\<close> reports as an
  unknown critical error. The \<open>ValueError\<close> of \<open>load_abi\<close> and a \<open>ContractLogicError\<close> of
  the call keep their kind.
\<close>

theorem schema_mismatch_leaves_as_generic_exception:
  "get_aave_reserves_data (Returns (PSeq [PSeq []])) = Inl (GenericException ValueError)
   \<and> get_aave_reserves_data (Returns (PSeq [PSeq [], PSeq (base_fields 100000 2 0), PInt 0]))
       = Inl (GenericException ValueError)
   \<and> main bare_runtime True Parsed (Returns (PSeq [PSeq []]))
       = UnknownCriticalError (GenericException ValueError)
   \<and> main bare_runtime True Unparsable (Returns (PSeq [PSeq []])) = Error ValueError
   \<and> get_aave_reserves_data (Raises ContractLogicError) = Inl ContractLogicError"
  by (simp add: get_aave_reserves_data_def check_shape_def main_def connect_to_web3_def
        handled_def)

text \<open>
  \<^bold>\<open>C8\<close>, with the range in the precondition. With a well-formed base currency info
  (four positions, an integer unit and an integer price of magnitude below \<open>2\<^sup>1\<^sup>0\<^sup>2\<^sup>3\<close>,
  integer price decimals) the reducer returns a float for every list of reserves
  whatsoever; with a base currency info of fewer than four positions it raises
  \<open>IndexError\<close>, whatever the reserves are.
\<close>

theorem reducer_total_for_wellformed_base:
  "(wf_base b \<longrightarrow> (\<exists>t. calculate_total_tvl rt (PSeq rs) b = Inr t))
   \<and> (length bs < 4 \<longrightarrow> calculate_total_tvl rt reserves (PSeq bs) = Inl IndexError)"
proof -
  have "\<exists>t. calculate_total_tvl rt (PSeq rs) b = Inr t" if "wf_base b"
    using calculate_wf_base [OF that, of rt] by (auto simp: calculate_cases)
  then show ?thesis by (simp add: calculate_short_base)
qed

text \<open>The theorem at a concrete input.\<close>

theorem reducer_total_for_wellformed_base_witness:
  "(\<exists>t. calculate_total_tvl bare_runtime
          (PSeq [PInt 7, PSeq [], PSeq (reserve_fields 6 True False 1000000 0 50000)])
          (PSeq (base_fields 100000 2 0)) = Inr t)
   \<and> calculate_total_tvl bare_runtime (PSeq [PSeq (reserve_fields 6 True False 1000000 0 50000)])
       (PSeq [PInt 100000, PInt 2, PInt 0]) = Inl IndexError"
proof -
  have wf: "wf_base (PSeq (base_fields 100000 2 0))" by (simp add: base_fields_wf ranges)
  have short: "length [PInt 100000, PInt 2, PInt 0] < 4" by simp
  from wf short show ?thesis
    using reducer_total_for_wellformed_base
      [of "PSeq (base_fields 100000 2 0)" bare_runtime
          "[PInt 7, PSeq [], PSeq (reserve_fields 6 True False 1000000 0 50000)]"
          "[PInt 100000, PInt 2, PInt 0]"
          "PSeq [PSeq (reserve_fields 6 True False 1000000 0 50000)]"]
    by blast
qed

text \<open>
  Four positions with numeric content are not enough: with the price \<open>10\<^sup>4\<^sup>0\<^sup>0\<close> and 0
  price decimals, \<open>float\<close> raises \<open>OverflowError\<close> before the loop, on the empty list too.
\<close>

theorem numeric_base_raises_counterexample:
  "numeric_base (PSeq (base_fields 1 oversized_price 0))
   \<and> calculate_total_tvl bare_runtime (PSeq []) (PSeq (base_fields 1 oversized_price 0))
       = Inl OverflowError"
proof -
  have "market_ref_currency_price_in_usd bare_runtime (PInt oversized_price) (PInt 0)
               = Inl OverflowError"
    by (simp add: market_ref_currency_price_in_usd_def py_gt_zero_def py_float_def
          oversized_price_overflows)
  then have "decode_base_currency bare_runtime (PSeq (base_fields 1 oversized_price 0))
               = Inl OverflowError"
    by (simp add: decode_base_currency_def base_fields_def)
  then show ?thesis
    by (simp add: calculate_total_tvl_def numeric_base_def base_fields_def)
qed

text \<open>
  \<^bold>\<open>C10\<close>. On the empty list of reserves and a well-formed base currency info, the
  reducer returns +0.0, the initial value of the accumulator.
\<close>

theorem empty_reserves_total_is_zero:
  assumes "wf_base b"
  shows "calculate_total_tvl rt (PSeq []) b = Inr fzero"
  using calculate_wf_base [OF assms, of rt] by (auto simp: calculate_cases)

text \<open>The theorem at a concrete input.\<close>

theorem empty_reserves_total_is_zero_witness:
  "wf_base (PSeq (base_fields 100000000 100000000 8))
   \<and> calculate_total_tvl bare_runtime (PSeq []) (PSeq (base_fields 100000000 100000000 8))
       = Inr fzero"
proof -
  have wf: "wf_base (PSeq (base_fields 100000000 100000000 8))"
    by (simp add: wf_base_def base_fields_def in_float_range_def)
  from wf empty_reserves_total_is_zero [OF wf, of bare_runtime] show ?thesis by simp
qed

section \<open>Further properties of the fetcher, the script and the loop\<close>

lemma check_shape_pair:
  "check_shape result = Inr q \<Longrightarrow> result = PSeq [fst q, snd q]"
proof (cases result)
  case (PSeq xs)
  assume ok: "check_shape result = Inr q"
  with PSeq have len: "length xs = 2" and q: "q = (xs ! 0, xs ! 1)"
    by (auto simp: check_shape_def split: if_splits)
  from len obtain x y where "xs = [x, y]"
    by (metis (no_types) One_nat_def Suc_1 length_0_conv length_Suc_conv)
  with q PSeq show ?thesis by simp
qed (simp_all add: check_shape_def)

lemma fetch_pair:
  "get_aave_reserves_data call = Inr q \<Longrightarrow> call = Returns (PSeq [fst q, snd q])"
proof (cases call)
  case (Returns result)
  assume "get_aave_reserves_data call = Inr q"
  with Returns have "check_shape result = Inr q"
    by (auto simp: get_aave_reserves_data_def split: sum.splits exn.splits)
  then show ?thesis using Returns by (simp add: check_shape_pair)
next
  case (Raises e)
  assume "get_aave_reserves_data call = Inr q"
  with Raises show ?thesis
    by (auto simp: get_aave_reserves_data_def split: exn.splits)
qed

text \<open>
  \<^bold>\<open>X1\<close>. The fetcher returns a pair exactly when the call returned a sequence of two
  elements, and the pair is then its two elements in order.
\<close>

theorem fetcher_returns_exactly_the_pairs:
  "(get_aave_reserves_data call = Inr (reserves, base)) = (call = Returns (PSeq [reserves, base]))"
  using fetch_pair [of call "(reserves, base)"] by (auto simp: fetch_two_elements)

text \<open>The theorem at a concrete input.\<close>

theorem fetcher_returns_exactly_the_pairs_witness:
  "get_aave_reserves_data (Returns (PSeq [PSeq [], PSeq (base_fields 100000 2 0)]))
     = Inr (PSeq [], PSeq (base_fields 100000 2 0))
   \<and> get_aave_reserves_data (Returns (PSeq [PSeq []])) \<noteq> Inr (PSeq [], PSeq [])"
  using fetcher_returns_exactly_the_pairs
          [of "Returns (PSeq [PSeq [], PSeq (base_fields 100000 2 0)])" "PSeq []"
              "PSeq (base_fields 100000 2 0)"]
        fetcher_returns_exactly_the_pairs [of "Returns (PSeq [PSeq []])" "PSeq []" "PSeq []"]
  by simp

text \<open>
  \<^bold>\<open>X2\<close>. The script reports a total exactly when the node is connected, the ABI file
  parsed, the call returned a sequence of two elements and the reducer returned that total
  on them: no total is reported after an error of any step.
\<close>

theorem main_reports_a_total_only_after_every_step:
  "(main rt is_connected file call = Tvl t)
     = (is_connected \<and> file = Parsed
        \<and> (\<exists>reserves base. call = Returns (PSeq [reserves, base])
              \<and> calculate_total_tvl rt reserves base = Inr t))"
proof
  assume m: "main rt is_connected file call = Tvl t"
  have c: is_connected
    using m by (auto simp: main_def connect_to_web3_def split: if_splits sum.splits)
  have f: "file = Parsed"
    using m c by (cases "file") (auto simp: main_def connect_to_web3_def split: if_splits)
  from m c f obtain q where q: "get_aave_reserves_data call = Inr q"
    and r: "calculate_total_tvl rt (fst q) (snd q) = Inr t"
    by (cases "get_aave_reserves_data call")
       (auto simp: main_def connect_to_web3_def and_then_def split: if_splits sum.splits)
  from q have "call = Returns (PSeq [fst q, snd q])" by (rule fetch_pair)
  with c f r show "is_connected \<and> file = Parsed
        \<and> (\<exists>reserves base. call = Returns (PSeq [reserves, base])
              \<and> calculate_total_tvl rt reserves base = Inr t)"
    by blast
next
  assume "is_connected \<and> file = Parsed
        \<and> (\<exists>reserves base. call = Returns (PSeq [reserves, base])
              \<and> calculate_total_tvl rt reserves base = Inr t)"
  then show "main rt is_connected file call = Tvl t"
    by (auto simp: main_def connect_to_web3_def fetch_two_elements)
qed

text \<open>The theorem at a concrete input.\<close>

theorem main_reports_a_total_only_after_every_step_witness:
  "main bare_runtime True Parsed
     (Returns (PSeq [PSeq [PSeq (reserve_fields 6 True False 1000000 0 50000)],
                     PSeq (base_fields 100000 2 0)])) = Tvl fone
   \<and> main bare_runtime True Parsed (Returns (PSeq [PSeq []])) \<noteq> Tvl fzero"
proof -
  have b: "4 \<le> length (base_fields 100000 2 0)" "base_fields 100000 2 0 ! 0 = PInt 100000"
    "base_fields 100000 2 0 ! 1 = PInt 2" "base_fields 100000 2 0 ! 3 = PInt 0"
    by (simp_all add: base_fields_def)
  have "tvl_loop bare_runtime (PInt 100000) (spec_price_in_usd 2 0)
          [PSeq (reserve_fields 6 True False 1000000 0 50000)] fzero = fone"
    using tvl_loop_wf [of "[PSeq (reserve_fields 6 True False 1000000 0 50000)]" 100000
            bare_runtime "nearest_int 2" fzero]
          example_spec_total [of 0]
    by (simp add: reserve_fields_wf ranges spec_total_def spec_price_in_usd_def)
  then have t: "calculate_total_tvl bare_runtime
      (PSeq [PSeq (reserve_fields 6 True False 1000000 0 50000)]) (PSeq (base_fields 100000 2 0))
      = Inr fone"
    using calculate_wf [OF b(1,3) ranges(4) b(4), of bare_runtime] b(2)
    by (simp add: printable_ranged ranges)
  show ?thesis
    using t main_reports_a_total_only_after_every_step
        [of bare_runtime True Parsed
            "Returns (PSeq [PSeq [PSeq (reserve_fields 6 True False 1000000 0 50000)],
                     PSeq (base_fields 100000 2 0)])" fone]
      main_reports_a_total_only_after_every_step
        [of bare_runtime True Parsed "Returns (PSeq [PSeq []])" fzero]
    by simp
qed

text \<open>
  \<^bold>\<open>X3\<close>. Whatever exception lines 94 to 127 raise on a record, the loop goes on: the
  total of a list with the record is the total of the list without it, from any running
  total.
\<close>

theorem raising_record_is_isolated:
  assumes "reserve_body rt unit price_in_usd r = Inl e"
  shows "tvl_loop rt unit price_in_usd (before @ r # after) t
           = tvl_loop rt unit price_in_usd (before @ after) t"
  using assms by (simp add: tvl_loop_remove)

text \<open>The theorem at a concrete input.\<close>

theorem raising_record_is_isolated_witness:
  "reserve_body bare_runtime (PInt 100000) (nearest_int 2) (PInt 7) = Inl TypeError
   \<and> tvl_loop bare_runtime (PInt 100000) (nearest_int 2)
       ([PSeq (reserve_fields 6 True False 1000000 0 50000)] @ PInt 7 # []) fzero
     = tvl_loop bare_runtime (PInt 100000) (nearest_int 2)
         ([PSeq (reserve_fields 6 True False 1000000 0 50000)] @ []) fzero"
proof -
  have r: "reserve_body bare_runtime (PInt 100000) (nearest_int 2) (PInt 7) = Inl TypeError"
    by (simp add: reserve_body_def)
  from r raising_record_is_isolated [OF r] show ?thesis by blast
qed

text \<open>
  \<^bold>\<open>X4\<close>. An eligible record whose price is an integer of magnitude \<open>2\<^sup>1\<^sup>0\<^sup>2\<^sup>4\<close> or more,
  with a unit that is not zero: multiplying the normalized supply by the price raises
  \<open>OverflowError\<close>, so the record is skipped. This is why the formula of C1 needs the
  integers in range.
\<close>

theorem oversized_record_price_is_skipped:
  assumes "23 \<le> length xs" "py_truth (xs ! 10)" "\<not> py_truth (xs ! 11)"
    "xs ! 3 = PInt d" "0 \<le> d" "xs ! 20 = PInt a" "in_float_range a"
    "xs ! 22 = PInt price" "2 ^ 1024 \<le> \<bar>price\<bar>" "\<not> py_eq_zero unit"
  shows "reserve_body rt unit price_in_usd (PSeq xs) = Inl OverflowError"
proof -
  have "py_float_mul x (PInt price) = Inl OverflowError" for x
    using assms(9) by (simp add: py_float_mul_def float_of_int_overflow)
  then have "value_in_market_ref_currency x (PInt price) unit = Inl OverflowError" for x
    by (simp add: value_in_market_ref_currency_def)
  then show ?thesis
    using assms by (simp add: reserve_body_def normalized_wf)
qed

text \<open>The theorem at a concrete input.\<close>

theorem oversized_record_price_is_skipped_witness:
  "reserve_body bare_runtime (PInt 100000) (nearest_int 2)
     (PSeq (reserve_fields 6 True False 1000000 0 oversized_price)) = Inl OverflowError"
proof -
  have big: "(2::int) ^ 1024 \<le> \<bar>oversized_price\<bar>" by (simp add: oversized_price_def)
  have f: "23 \<le> length (reserve_fields 6 True False 1000000 0 oversized_price)"
    "py_truth (reserve_fields 6 True False 1000000 0 oversized_price ! 10)"
    "\<not> py_truth (reserve_fields 6 True False 1000000 0 oversized_price ! 11)"
    "reserve_fields 6 True False 1000000 0 oversized_price ! 3 = PInt 6"
    "reserve_fields 6 True False 1000000 0 oversized_price ! 20 = PInt 1000000"
    "reserve_fields 6 True False 1000000 0 oversized_price ! 22 = PInt oversized_price"
    by (simp_all add: reserve_fields_def)
  have d: "(0::int) \<le> 6" by simp
  have u: "\<not> py_eq_zero (PInt 100000)" by (simp add: py_eq_zero_def)
  show ?thesis
    using oversized_record_price_is_skipped [OF f(1,2,3,4) d f(5) ranges(1) f(6) big u] .
qed

text \<open>
  \<^bold>\<open>X5\<close>. A record that reaches line 127 and whose symbol is an integer of more digits
  than the limit: the \<open>print\<close> of line 129 raises \<open>ValueError\<close> after the addition, so the
  handler logs the record as skipped and its value stays in the total.
\<close>

theorem unprintable_symbol_is_added_then_caught:
  assumes "str_digits_limit rt = Some k" "xs ! 2 = PInt s" "10 ^ (640 + k) \<le> \<bar>s\<bar>"
    and "reserve_body rt unit price_in_usd (PSeq xs) = Inr (Adds v)"
  shows "reserve_try rt unit price_in_usd (PSeq xs) = AddedThenCaught v ValueError
         \<and> tvl_loop rt unit price_in_usd (before @ PSeq xs # after) t
             = tvl_loop rt unit price_in_usd after
                 (fadd (tvl_loop rt unit price_in_usd before t) v)"
proof -
  from assms(4) obtain symbol where s: "py_index (PSeq xs) 2 = Inr symbol"
    by (rule reserve_body_symbol)
  then have "symbol = PInt s" using assms(2) by (simp split: if_splits)
  moreover have "\<not> printable rt (PInt s)" using assms(1,3) by (simp add: printable.simps)
  ultimately have "reserve_try rt unit price_in_usd (PSeq xs) = AddedThenCaught v ValueError"
    using assms(4) s by (simp add: reserve_try_def)
  then show ?thesis by (simp add: tvl_loop_append)
qed

text \<open>The theorem at a concrete input.\<close>

theorem unprintable_symbol_is_added_then_caught_witness:
  "reserve_try bare_runtime (PInt 100000) (nearest_int 2) (PSeq unprintable_fields)
     = AddedThenCaught fone ValueError
   \<and> tvl_loop bare_runtime (PInt 100000) (nearest_int 2) ([] @ PSeq unprintable_fields # []) fzero
     = fone"
proof -
  have lim: "str_digits_limit bare_runtime = Some 3660" by (simp add: bare_runtime_def)
  have sym: "unprintable_fields ! 2 = PInt long_symbol"
    by (simp add: unprintable_fields_def reserve_fields_def)
  have big: "10 ^ (640 + 3660) \<le> \<bar>long_symbol\<bar>"
    unfolding long_symbol_def by (rule abs_ge_self)
  have body: "reserve_body bare_runtime (PInt 100000) (nearest_int 2) (PSeq unprintable_fields)
                = Inr (Adds fone)"
    by (rule reserve_body_example) (simp_all add: unprintable_fields_def reserve_fields_def)
  note t = unprintable_symbol_is_added_then_caught [OF lim sym big body, of "[]" "[]" fzero]
  from t have a: "reserve_try bare_runtime (PInt 100000) (nearest_int 2) (PSeq unprintable_fields)
                    = AddedThenCaught fone ValueError"
    by (rule conjunct1)
  from t have "tvl_loop bare_runtime (PInt 100000) (nearest_int 2)
                 ([] @ PSeq unprintable_fields # []) fzero
               = tvl_loop bare_runtime (PInt 100000) (nearest_int 2) []
                   (fadd (tvl_loop bare_runtime (PInt 100000) (nearest_int 2) [] fzero) fone)"
    by (rule conjunct2)
  also have "\<dots> = fone" by (simp add: fadd_zero_one)
  finally show ?thesis using a by (rule conjI [rotated])
qed

end
